theory Spec2Isabelle
  imports Main "HOL-Library.Word" "HOL-Library.Signed_Division"
begin

section \<open>Data model of main.c\<close>

text \<open>
  The firmware keeps its state in file-scope variables of \<^verbatim>\<open>main.c\<close>. They become one
  record that every modelled function takes and returns. Machine integers are words:
  \<^verbatim>\<open>int32_t\<close> and \<^verbatim>\<open>int\<close> are \<open>32 word\<close> read through \<open>sint\<close> and compared with
  \<open><s\<close>, \<^verbatim>\<open>uint32_t\<close> is \<open>32 word\<close>, \<^verbatim>\<open>uint16_t\<close> is \<open>16 word\<close>, \<^verbatim>\<open>uint8_t\<close> is
  \<open>8 word\<close>, and \<^verbatim>\<open>time_t\<close> (64 bits in ESP-IDF v5) is \<open>64 word\<close>, signed.

  Calls into ESP-IDF and libc are not code of this program. Their outcomes are inputs of
  the modelled functions (the RTC reading, the value of \<^verbatim>\<open>time()\<close>, whether
  \<^verbatim>\<open>nvs_open\<close> succeeds, the result of \<^verbatim>\<open>esp_wifi_deauth_sta\<close>), and what they do to
  the outside world is kept in the record as well: the contents of the NVS namespace,
  whether the one-shot timer is armed, and a trace of the calls made. Log output
  (\<^verbatim>\<open>ESP_LOGx\<close>, \<^verbatim>\<open>printf\<close>, \<^verbatim>\<open>print_mac\<close>) is not modelled. The three execution
  contexts of the firmware (main loop, event task, timer task) are modelled as atomic
  steps taken one after the other.
\<close>

type_synonym u8 = "8 word"
type_synonym u16 = "16 word"
type_synonym u32 = "32 word"
type_synonym i32 = "32 word"
type_synonym time_t = "64 word"

text \<open>\<^verbatim>\<open>#define DAILY_TARGET_SEC (9*3600 + 15*60)\<close> and \<^verbatim>\<open>#define DEAUTH_DELAY_MS 4000\<close>.\<close>

definition DAILY_TARGET_SEC :: i32 where
  "DAILY_TARGET_SEC = 9 * 3600 + 15 * 60"

definition DEAUTH_DELAY_MS :: "64 word" where
  "DEAUTH_DELAY_MS = 4000"

text \<open>The fields of \<^verbatim>\<open>struct tm\<close> that the program reads.\<close>

record tm =
  tm_sec :: i32
  tm_min :: i32
  tm_hour :: i32
  tm_mday :: i32
  tm_mon :: i32
  tm_year :: i32

text \<open>A \<^verbatim>\<open>uint8_t[6]\<close> array; \<^verbatim>\<open>memcmp(a, b, 6) == 0\<close> is equality.\<close>

datatype mac = Mac u8 u8 u8 u8 u8 u8

fun mac_bytes :: "mac \<Rightarrow> u8 list" where
  "mac_bytes (Mac a b c d e f) = [a, b, c, d, e, f]"

definition mac_zero :: mac where
  "mac_zero = Mac 0 0 0 0 0 0"

text \<open>
  The NVS namespace \<^verbatim>\<open>"tk"\<close>: the five keys of the program, each absent or holding a
  value of its type. Once the namespace is open, \<^verbatim>\<open>nvs_set_*\<close> and \<^verbatim>\<open>nvs_commit\<close>
  store what they are given (the program discards their results).
\<close>

record nvs_store =
  nvs_day :: "u32 option"
  nvs_rem :: "i32 option"
  nvs_start :: "u8 option"
  nvs_hmac :: "u8 option"
  nvs_mac :: "u8 list option"

text \<open>
  \<^verbatim>\<open>nvs_get_blob(h, key, buf, &len)\<close> with \<^verbatim>\<open>len = 6\<close>: fails when the key is absent or
  the stored blob is longer than the buffer, otherwise copies the blob to the front of
  the buffer.
\<close>

definition nvs_get_blob :: "u8 list option \<Rightarrow> mac \<Rightarrow> mac option" where
  "nvs_get_blob blob buf =
     (case blob of
        None \<Rightarrow> None
      | Some bs \<Rightarrow>
          if 6 < length bs then None
          else (case bs @ drop (length bs) (mac_bytes buf) of
                  [a, b, c, d, e, f] \<Rightarrow> Some (Mac a b c d e f)
                | _ \<Rightarrow> None))"

text \<open>What the program does that is visible outside it, newest first in the trace.\<close>

datatype effect =
    SaveThrottledCall time_t
  | ThrottledWrite time_t
  | ImmediateWrite
  | DeauthSta u16 bool
  | TimerStop
  | TimerStartOnce "64 word"
  | ShowHHMM u8 u8 bool

record state =
  s_started :: bool
  s_remaining :: i32
  s_day_key :: u32
  s_phone_mac :: mac
  s_have_mac :: bool
  s_rtc_ok :: bool
  s_last_save_epoch :: time_t
  s_deauth_timer :: bool
  s_deauth_pending :: bool
  s_deauth_aid :: u16
  s_deauth_mac :: mac
  last_epoch :: time_t
  nvs :: nvs_store
  timer_armed :: "64 word option"
  trace :: "effect list"

text \<open>
  \<open>s_deauth_timer\<close> is whether the handle is non-NULL; \<open>last_epoch\<close> is the local
  variable of \<^verbatim>\<open>app_main\<close> that lives across the iterations of the main loop;
  \<open>timer_armed\<close> is the timeout in microseconds while the one-shot timer is running.
  \<open>DeauthSta aid ok\<close> records a call of \<^verbatim>\<open>esp_wifi_deauth_sta\<close> and whether it
  returned \<^verbatim>\<open>ESP_OK\<close>.
\<close>

section \<open>Helpers\<close>

text \<open>\<^verbatim>\<open>day_key_from_tm\<close>: computed in \<^verbatim>\<open>int\<close>, converted to \<^verbatim>\<open>uint32_t\<close>.\<close>

definition day_key_from_tm :: "tm \<Rightarrow> u32" where
  "day_key_from_tm t = (tm_year t + 1900) * 10000 + (tm_mon t + 1) * 100 + tm_mday t"

section \<open>NVS\<close>

text \<open>
  The five \<^verbatim>\<open>nvs_set_*\<close> calls and the commit, the same in \<^verbatim>\<open>nvs_save_state\<close> and
  \<^verbatim>\<open>nvs_save_state_immediate\<close>.
\<close>

definition nvs_put_state :: "state \<Rightarrow> nvs_store \<Rightarrow> nvs_store" where
  "nvs_put_state st h =
     (let h1 = h\<lparr>nvs_day := Some (s_day_key st),
                 nvs_rem := Some (s_remaining st),
                 nvs_start := Some (if s_started st then 1 else 0),
                 nvs_hmac := Some (if s_have_mac st then 1 else 0)\<rparr>
      in if s_have_mac st then h1\<lparr>nvs_mac := Some (mac_bytes (s_phone_mac st))\<rparr> else h1)"

text \<open>
  \<^verbatim>\<open>nvs_save_state\<close>: \<open>now\<close> is the value of \<^verbatim>\<open>time(&now)\<close>, \<open>ok\<close> whether
  \<^verbatim>\<open>nvs_open\<close> returns \<^verbatim>\<open>ESP_OK\<close>.
\<close>

definition nvs_save_state :: "time_t \<Rightarrow> bool \<Rightarrow> state \<Rightarrow> state" where
  "nvs_save_state now ok st =
     (let st0 = st\<lparr>trace := SaveThrottledCall now # trace st\<rparr>
      in if now - s_last_save_epoch st0 <s 60 then st0
         else let st1 = st0\<lparr>s_last_save_epoch := now\<rparr>
              in if \<not> ok then st1
                 else st1\<lparr>nvs := nvs_put_state st1 (nvs st1),
                          trace := ThrottledWrite now # trace st1\<rparr>)"

definition nvs_save_state_immediate :: "bool \<Rightarrow> state \<Rightarrow> state" where
  "nvs_save_state_immediate ok st =
     (if \<not> ok then st
      else st\<lparr>nvs := nvs_put_state st (nvs st),
               trace := ImmediateWrite # trace st,
               s_last_save_epoch := 0\<rparr>)"

text \<open>\<^verbatim>\<open>nvs_load_state\<close>: each key that is present overwrites its variable.\<close>

definition nvs_load_state :: "bool \<Rightarrow> state \<Rightarrow> state" where
  "nvs_load_state ok st =
     (if \<not> ok then st
      else
        let h = nvs st;
            st1 = (case nvs_day h of Some dk \<Rightarrow> st\<lparr>s_day_key := dk\<rparr> | None \<Rightarrow> st);
            st2 = (case nvs_rem h of Some rem \<Rightarrow> st1\<lparr>s_remaining := rem\<rparr> | None \<Rightarrow> st1);
            st3 = (case nvs_start h of Some b \<Rightarrow> st2\<lparr>s_started := (b \<noteq> 0)\<rparr> | None \<Rightarrow> st2);
            st4 = (case nvs_hmac h of Some b \<Rightarrow> st3\<lparr>s_have_mac := (b \<noteq> 0)\<rparr> | None \<Rightarrow> st3)
        in if s_have_mac st4
           then (case nvs_get_blob (nvs_mac h) (s_phone_mac st4) of
                   Some m \<Rightarrow> st4\<lparr>s_phone_mac := m\<rparr>
                 | None \<Rightarrow> st4\<lparr>s_have_mac := False, s_phone_mac := mac_zero\<rparr>)
           else st4)"

section \<open>Deauth timer\<close>

text \<open>
  The two calls of the \<^verbatim>\<open>esp_timer\<close> API the program makes. Stopping a timer that is
  not running is an error the program discards; \<^verbatim>\<open>esp_timer_start_once\<close> refuses a
  timer that is running, and the program wraps it in \<^verbatim>\<open>ESP_ERROR_CHECK\<close>, which
  aborts: \<open>None\<close>.
\<close>

definition esp_timer_stop :: "state \<Rightarrow> state" where
  "esp_timer_stop st = st\<lparr>timer_armed := None, trace := TimerStop # trace st\<rparr>"

definition esp_timer_start_once :: "64 word \<Rightarrow> state \<Rightarrow> state option" where
  "esp_timer_start_once us st =
     (if timer_armed st \<noteq> None then None
      else Some (st\<lparr>timer_armed := Some us, trace := TimerStartOnce us # trace st\<rparr>))"

text \<open>
  \<^verbatim>\<open>deauth_timer_cb\<close>: \<open>r\<close> is whether \<^verbatim>\<open>esp_wifi_deauth_sta\<close> returns \<^verbatim>\<open>ESP_OK\<close>;
  the two branches on \<open>r\<close> only log.
\<close>

definition deauth_timer_cb :: "bool \<Rightarrow> state \<Rightarrow> state" where
  "deauth_timer_cb r st =
     (if s_deauth_pending st \<and> s_deauth_aid st \<noteq> 0
      then st\<lparr>trace := DeauthSta (s_deauth_aid st) r # trace st,
               s_deauth_pending := False,
               s_deauth_aid := 0\<rparr>
      else st)"

text \<open>The timer expiring: a one-shot timer that is running stops and runs its callback.\<close>

definition timer_fire :: "bool \<Rightarrow> state \<Rightarrow> state" where
  "timer_fire r st =
     (if timer_armed st \<noteq> None then deauth_timer_cb r (st\<lparr>timer_armed := None\<rparr>) else st)"

section \<open>Wi-Fi SoftAP events\<close>

text \<open>
  The handler is registered for every \<^verbatim>\<open>WIFI_EVENT\<close> id and acts on two of them. The
  build has \<^verbatim>\<open>RELEARN_MAC_DAILY\<close> and \<^verbatim>\<open>AUTO_DEAUTH_ON_FIRST_CONNECT\<close> defined and
  \<^verbatim>\<open>AUTO_DEAUTH_ALWAYS\<close> not. \<open>ok1\<close> and \<open>ok2\<close> are the outcomes of \<^verbatim>\<open>nvs_open\<close> in
  the first and the second immediate save of the handler.
\<close>

datatype wifi_event =
    AP_STACONNECTED mac u16
  | AP_STADISCONNECTED mac u16
  | WIFI_OTHER

fun wifi_event_handler :: "wifi_event \<Rightarrow> bool \<Rightarrow> bool \<Rightarrow> state \<Rightarrow> state option" where
  "wifi_event_handler (AP_STACONNECTED ev_mac ev_aid) ok1 ok2 st =
     (let mac_matches = (s_have_mac st \<and> s_phone_mac st = ev_mac);
          can_relearn = (\<not> s_started st);
          accept_as_phone = (\<not> s_have_mac st \<or> mac_matches \<or> can_relearn)
      in if accept_as_phone then
           let st1 = (if \<not> s_have_mac st \<or> (\<not> mac_matches \<and> can_relearn)
                      then nvs_save_state_immediate ok1
                             (st\<lparr>s_phone_mac := ev_mac, s_have_mac := True\<rparr>)
                      else st);
               should_deauth = (\<not> s_started st1);
               st2 = (if \<not> s_started st1
                      then nvs_save_state_immediate ok2 (st1\<lparr>s_started := True\<rparr>)
                      else st1)
           in if should_deauth \<and> s_deauth_timer st2 then
                esp_timer_start_once (DEAUTH_DELAY_MS * 1000)
                  (esp_timer_stop
                     (st2\<lparr>s_deauth_mac := ev_mac,
                           s_deauth_aid := ev_aid,
                           s_deauth_pending := True\<rparr>))
              else Some st2
         else Some st)"
| "wifi_event_handler (AP_STADISCONNECTED ev_mac ev_aid) ok1 ok2 st =
     Some ((if s_deauth_timer st then esp_timer_stop st else st)
             \<lparr>s_deauth_pending := False, s_deauth_aid := 0\<rparr>)"
| "wifi_event_handler WIFI_OTHER ok1 ok2 st = Some st"

section \<open>The main loop of app_main\<close>

text \<open>The day boundary check of one iteration; \<open>ok\<close> is the outcome of \<^verbatim>\<open>nvs_open\<close>.\<close>

definition day_boundary_check :: "u32 \<Rightarrow> bool \<Rightarrow> state \<Rightarrow> state" where
  "day_boundary_check today ok st =
     (if today \<noteq> s_day_key st
      then nvs_save_state_immediate ok
             (st\<lparr>s_day_key := today, s_started := False, s_remaining := DAILY_TARGET_SEC\<rparr>)
      else st)"

text \<open>\<^verbatim>\<open>if (delta < 0) delta = 0; if (delta > 60) delta = 60;\<close> on \<^verbatim>\<open>time_t\<close>.\<close>

definition clamp_delta :: "time_t \<Rightarrow> time_t" where
  "clamp_delta delta =
     (let d1 = (if delta <s 0 then 0 else delta)
      in if 60 <s d1 then 60 else d1)"

text \<open>
  The decrement by elapsed seconds. \<open>epoch\<close> is \<^verbatim>\<open>mktime(&t)\<close> of this iteration's
  reading, \<open>now\<close> and \<open>ok\<close> are what \<^verbatim>\<open>nvs_save_state\<close> would read from \<^verbatim>\<open>time()\<close> and
  get from \<^verbatim>\<open>nvs_open\<close>. The cast \<^verbatim>\<open>(int32_t)delta\<close> keeps the low 32 bits, and
  \<^verbatim>\<open>%\<close> is C's remainder, truncating towards zero.
\<close>

definition tick_countdown :: "time_t \<Rightarrow> time_t \<Rightarrow> bool \<Rightarrow> state \<Rightarrow> state" where
  "tick_countdown epoch now ok st =
     (let delta = clamp_delta (epoch - last_epoch st);
          st1 = (if s_started st \<and> 0 <s s_remaining st then
                   let dec0 = (ucast delta :: i32);
                       dec = (if s_remaining st <s dec0 then s_remaining st else dec0);
                       st' = st\<lparr>s_remaining := s_remaining st - dec\<rparr>
                   in if 0 <s dec \<and> sint (s_remaining st') smod 60 = 0
                      then nvs_save_state now ok st'
                      else st'
                 else st)
      in st1\<lparr>last_epoch := epoch\<rparr>)"

text \<open>The rendering of the remaining time as HH:MM with a blinking colon.\<close>

definition show_remaining :: "tm \<Rightarrow> state \<Rightarrow> state" where
  "show_remaining t st =
     (let rem = (if s_remaining st <s 0 then 0 else s_remaining st);
          rh = (word_of_int (sint rem sdiv 3600) :: i32);
          rm = (word_of_int ((sint rem smod 3600) sdiv 60) :: i32);
          colon = (sint (tm_sec t) smod 2 = 0);
          rh' = (if 99 <s rh then 99 else rh)
      in st\<lparr>trace := ShowHHMM (ucast rh') (ucast rm) colon # trace st\<rparr>)"

text \<open>
  One iteration of \<^verbatim>\<open>while (1)\<close>. \<open>rd\<close> is the result of \<^verbatim>\<open>ds3231_get_time\<close> (\<open>None\<close>
  when it fails), \<open>mk\<close> the value of \<^verbatim>\<open>mktime(&t)\<close> on that reading together with the
  normalised \<^verbatim>\<open>struct tm\<close> it leaves in \<^verbatim>\<open>t\<close>; \<open>ok_reset\<close> and \<open>ok_tick\<close> are the
  outcomes of \<^verbatim>\<open>nvs_open\<close> in the day reset and in the throttled save.
\<close>

definition loop_cycle ::
  "tm option \<Rightarrow> time_t \<times> tm \<Rightarrow> time_t \<Rightarrow> bool \<Rightarrow> bool \<Rightarrow> state \<Rightarrow> state" where
  "loop_cycle rd mk now ok_reset ok_tick st =
     (if s_rtc_ok st \<and> rd \<noteq> None then
        let epoch = fst mk;
            t = snd mk;
            today = day_key_from_tm t;
            st1 = day_boundary_check today ok_reset st;
            st2 = tick_countdown epoch now ok_tick st1
        in show_remaining t st2
      else st\<lparr>trace := ShowHHMM 0 0 False # trace st\<rparr>)"

section \<open>Start-up of app_main\<close>

text \<open>The variables as their static initialisers leave them, over the flash contents \<open>h\<close>.\<close>

definition init_state :: "nvs_store \<Rightarrow> state" where
  "init_state h =
     \<lparr>s_started = False, s_remaining = DAILY_TARGET_SEC, s_day_key = 0,
      s_phone_mac = mac_zero, s_have_mac = False, s_rtc_ok = False,
      s_last_save_epoch = 0, s_deauth_timer = False, s_deauth_pending = False,
      s_deauth_aid = 0, s_deauth_mac = mac_zero, last_epoch = 0,
      nvs = h, timer_armed = None, trace = []\<rparr>"

text \<open>
  Establishing today's key at start-up. \<open>rd\<close> is the result of \<^verbatim>\<open>ds3231_get_time\<close>,
  \<open>local_tm\<close> what \<^verbatim>\<open>localtime_r\<close> gives for the system time; the second component is
  \<^verbatim>\<open>now_tm\<close> as the main loop finds it.
\<close>

definition boot_day_check :: "tm option \<Rightarrow> tm \<Rightarrow> bool \<Rightarrow> state \<Rightarrow> state \<times> tm" where
  "boot_day_check rd local_tm ok st =
     (case (if s_rtc_ok st then rd else None) of
        Some now_tm \<Rightarrow>
          let today = day_key_from_tm now_tm
          in (if s_day_key st \<noteq> today
              then nvs_save_state_immediate ok
                     (st\<lparr>s_day_key := today, s_started := False,
                          s_remaining := DAILY_TARGET_SEC\<rparr>)
              else st, now_tm)
      | None \<Rightarrow> (st\<lparr>s_day_key := day_key_from_tm local_tm\<rparr>, local_tm))"

text \<open>
  \<^verbatim>\<open>app_main\<close> up to the main loop. \<open>checks_ok\<close> is whether every call under
  \<^verbatim>\<open>ESP_ERROR_CHECK\<close> (flash, timer creation, SoftAP) succeeds, \<open>rtc_init_ok\<close> the result
  of \<^verbatim>\<open>ds3231_init\<close>, \<open>mk\<close> the function \<^verbatim>\<open>mktime\<close> applied to \<^verbatim>\<open>now_tm\<close>.
\<close>

definition app_boot ::
  "bool \<Rightarrow> bool \<Rightarrow> bool \<Rightarrow> tm option \<Rightarrow> tm \<Rightarrow> bool \<Rightarrow> (tm \<Rightarrow> time_t) \<Rightarrow> nvs_store
     \<Rightarrow> state option" where
  "app_boot checks_ok rtc_init_ok load_ok rd local_tm ok_reset mk h =
     (if \<not> checks_ok then None
      else
        let st0 = (init_state h)\<lparr>s_rtc_ok := rtc_init_ok\<rparr>;
            st1 = nvs_load_state load_ok st0;
            (st2, now_tm) = boot_day_check rd local_tm ok_reset st1;
            st3 = st2\<lparr>s_deauth_timer := True\<rparr>
        in Some (st3\<lparr>last_epoch := mk now_tm\<rparr>))"

section \<open>Runs\<close>

text \<open>
  After start-up the program only reacts: to the main loop's next iteration, to a Wi-Fi
  event, to the expiry of the deauth timer. A run is a list of such events, each with
  the outcomes of the external calls it makes.
\<close>

datatype event =
    MainLoop "tm option" "time_t \<times> tm" time_t bool bool
  | WifiEvent wifi_event bool bool
  | TimerExpiry bool

fun step :: "event \<Rightarrow> state \<Rightarrow> state option" where
  "step (MainLoop rd mk now ok_reset ok_tick) st = Some (loop_cycle rd mk now ok_reset ok_tick st)"
| "step (WifiEvent ev ok1 ok2) st = wifi_event_handler ev ok1 ok2 st"
| "step (TimerExpiry r) st = Some (timer_fire r st)"

fun run :: "event list \<Rightarrow> state \<Rightarrow> state option" where
  "run [] st = Some st"
| "run (e # es) st = (case step e st of None \<Rightarrow> None | Some st' \<Rightarrow> run es st')"

text \<open>Recognising in a trace the deauthentications sent and the armings of the timer.\<close>

fun is_deauth :: "effect \<Rightarrow> bool" where
  "is_deauth (DeauthSta aid r) = True"
| "is_deauth _ = False"

fun is_arming :: "effect \<Rightarrow> bool" where
  "is_arming (TimerStartOnce us) = True"
| "is_arming _ = False"

section \<open>Counting fires and armings\<close>

definition deauths :: "state \<Rightarrow> nat" where
  "deauths st = length (filter is_deauth (trace st))"

definition armings :: "state \<Rightarrow> nat" where
  "armings st = length (filter is_arming (trace st))"

text \<open>The fires still to come: one while the timer is running, none otherwise.\<close>

definition pending_fires :: "state \<Rightarrow> nat" where
  "pending_fires st = (if timer_armed st = None then 0 else 1)"

section \<open>Example states\<close>

text \<open>
  Concrete states on which the theorems below are exercised: an empty flash, two phones,
  the device waiting for the day's check-in, and the device counting down with phone A
  known and 61 seconds left.
\<close>

definition nvs_empty :: nvs_store where
  "nvs_empty = \<lparr>nvs_day = None, nvs_rem = None, nvs_start = None, nvs_hmac = None,
                 nvs_mac = None\<rparr>"

definition phone_a :: mac where
  "phone_a = Mac 0xAA 0xBB 0xCC 0xDD 0xEE 0xFF"

definition phone_b :: mac where
  "phone_b = Mac 0x02 0x11 0x22 0x33 0x44 0x55"

definition st_waiting :: state where
  "st_waiting = (init_state nvs_empty)\<lparr>s_rtc_ok := True, s_day_key := 20240501,
      s_deauth_timer := True, last_epoch := 1714588198\<rparr>"

definition st_running :: state where
  "st_running = st_waiting\<lparr>s_started := True, s_remaining := 61, s_have_mac := True,
      s_phone_mac := phone_a\<rparr>"

text \<open>The counting device with a deauthentication of association id 1 pending.\<close>

definition st_armed :: state where
  "st_armed = st_running\<lparr>s_deauth_pending := True, s_deauth_aid := 1,
      s_deauth_mac := phone_a, timer_armed := Some 4000000\<rparr>"

text \<open>
  Readings of the RTC (IST): 1 May 2024 at 23:59:59 and 2 May 2024 at 00:00:00, with
  epochs 1714588199 and 1714588200. The example states have read the RTC last at
  23:59:58, epoch 1714588198.
\<close>

definition tm_may1 :: tm where
  "tm_may1 = \<lparr>tm_sec = 59, tm_min = 59, tm_hour = 23, tm_mday = 1, tm_mon = 4, tm_year = 124\<rparr>"

definition tm_may2 :: tm where
  "tm_may2 = \<lparr>tm_sec = 0, tm_min = 0, tm_hour = 0, tm_mday = 2, tm_mon = 4, tm_year = 124\<rparr>"

text \<open>
  A run around midnight, the system clock agreeing with the RTC: the last tick of 1 May,
  which reaches 60 seconds left; the first tick of 2 May; the phone checking in again;
  and one second later a tick whose RTC reading is 62 seconds ahead of the previous one
  (a misread, or a clock that was set).
\<close>

definition rollover_run :: "event list" where
  "rollover_run =
     [MainLoop (Some tm_may1) (1714588199, tm_may1) 1714588199 True True,
      MainLoop (Some tm_may2) (1714588200, tm_may2) 1714588200 True True,
      WifiEvent (AP_STACONNECTED phone_a 1) True True,
      MainLoop (Some tm_may2) (1714588262, tm_may2) 1714588201 True True]"

text \<open>
  A run in which phone A checks in, the timer expires twice and a deauthentication that
  fails is sent once.
\<close>

definition checkin_run :: "event list" where
  "checkin_run =
     [WifiEvent (AP_STACONNECTED phone_a 1) True True,
      TimerExpiry False,
      TimerExpiry True]"

lemmas count_defs = deauths_def armings_def pending_fires_def

lemmas example_defs =
  st_armed_def st_running_def st_waiting_def init_state_def nvs_empty_def phone_a_def
  phone_b_def tm_may1_def tm_may2_def rollover_run_def checkin_run_def
  DAILY_TARGET_SEC_def DEAUTH_DELAY_MS_def mac_zero_def

section \<open>Facts about words and the clamp\<close>

lemma clamp_delta_sint: "sint (clamp_delta d) = max 0 (min 60 (sint d))"
  by (auto simp add: clamp_delta_def Let_def word_sless_alt)

lemma sint_ucast_small:
  fixes w :: "64 word"
  assumes "0 \<le> sint w" and "sint w \<le> 60"
  shows "sint (ucast w :: 32 word) = sint w"
proof -
  have "uint w = take_bit 64 (sint w)"
    by (simp add: uint_sint)
  then have u: "uint w = sint w"
    using assms by (simp add: take_bit_int_eq_self)
  have "uint (ucast w :: 32 word) = take_bit 32 (uint w)"
    by (simp add: unsigned_ucast_eq)
  then have v: "uint (ucast w :: 32 word) = sint w"
    using assms u by (simp add: take_bit_int_eq_self)
  have "sint (ucast w :: 32 word) = signed_take_bit 31 (uint (ucast w :: 32 word))"
    by (subst sint_uint) simp
  also have "\<dots> = sint w"
    unfolding v using assms by (simp add: signed_take_bit_int_eq_self)
  finally show ?thesis .
qed

lemma sint_dec:
  fixes r d :: "32 word"
  assumes "0 < sint r" and "0 \<le> sint d"
  shows "sint (r - (if r <s d then r else d)) = sint r - min (sint d) (sint r)"
proof (cases "r <s d")
  case True
  then show ?thesis by (simp add: word_sless_alt)
next
  case False
  then have le: "sint d \<le> sint r"
    by (simp add: word_sless_alt)
  have "sint r < 2 ^ 31"
    using sint_lt [of r] by simp
  then have "sint (r - d) = sint r - sint d"
    using assms le by (simp add: sint_word_diff signed_take_bit_int_eq_self)
  with False le show ?thesis by simp
qed

section \<open>Frame facts\<close>

lemma get_blob_bytes: "nvs_get_blob (Some (mac_bytes m)) buf = Some m"
  by (cases m; cases buf) (simp add: nvs_get_blob_def)

lemma nvs_save_state_frame [simp]:
  "s_remaining (nvs_save_state now ok st) = s_remaining st"
  "s_started (nvs_save_state now ok st) = s_started st"
  "s_day_key (nvs_save_state now ok st) = s_day_key st"
  "s_have_mac (nvs_save_state now ok st) = s_have_mac st"
  "s_phone_mac (nvs_save_state now ok st) = s_phone_mac st"
  "last_epoch (nvs_save_state now ok st) = last_epoch st"
  by (simp_all add: nvs_save_state_def Let_def)

lemma show_remaining_frame [simp]:
  "s_remaining (show_remaining t st) = s_remaining st"
  "s_started (show_remaining t st) = s_started st"
  by (simp_all add: show_remaining_def Let_def)

lemma day_check_last_epoch [simp]:
  "last_epoch (day_boundary_check today ok st) = last_epoch st"
  by (simp add: day_boundary_check_def nvs_save_state_immediate_def)

section \<open>The countdown tick\<close>

lemma tick_dec_word:
  "s_remaining (tick_countdown epoch now ok st) =
     (if s_started st \<and> 0 <s s_remaining st
      then s_remaining st -
             (if s_remaining st <s ucast (clamp_delta (epoch - last_epoch st))
              then s_remaining st else ucast (clamp_delta (epoch - last_epoch st)))
      else s_remaining st)"
  by (simp add: tick_countdown_def Let_def)

lemma tick_started [simp]: "s_started (tick_countdown epoch now ok st) = s_started st"
  by (simp add: tick_countdown_def Let_def)

lemma tick_remaining:
  "sint (s_remaining (tick_countdown epoch now ok st)) =
     (if s_started st \<and> 0 < sint (s_remaining st)
      then sint (s_remaining st)
             - min (max 0 (min 60 (sint (epoch - last_epoch st)))) (sint (s_remaining st))
      else sint (s_remaining st))"
proof -
  let ?c = "clamp_delta (epoch - last_epoch st)"
  have c: "sint (ucast ?c :: 32 word) = max 0 (min 60 (sint (epoch - last_epoch st)))"
    using sint_ucast_small [of ?c] by (simp add: clamp_delta_sint)
  show ?thesis
  proof (cases "s_started st \<and> 0 < sint (s_remaining st)")
    case True
    then have "0 < sint (s_remaining st)" by simp
    moreover have "0 \<le> sint (ucast ?c :: 32 word)" by (simp add: c)
    ultimately have
      "sint (s_remaining st - (if s_remaining st <s ucast ?c then s_remaining st else ucast ?c))
        = sint (s_remaining st) - min (sint (ucast ?c :: 32 word)) (sint (s_remaining st))"
      by (rule sint_dec)
    with True show ?thesis
      by (simp only: tick_dec_word c) (simp add: word_sless_alt)
  next
    case False
    then show ?thesis
      by (simp only: tick_dec_word) (auto simp add: word_sless_alt)
  qed
qed

lemma loop_cycle_remaining:
  "s_rtc_ok st \<Longrightarrow> rd = Some t0 \<Longrightarrow>
   s_remaining (loop_cycle rd mk now ok_reset ok_tick st) =
     s_remaining (tick_countdown (fst mk) now ok_tick
                    (day_boundary_check (day_key_from_tm (snd mk)) ok_reset st))
   \<and> s_started (loop_cycle rd mk now ok_reset ok_tick st) =
     s_started (day_boundary_check (day_key_from_tm (snd mk)) ok_reset st)"
  by (simp add: loop_cycle_def Let_def)

lemma loop_cycle_last_epoch:
  "s_rtc_ok st \<Longrightarrow> rd = Some t0 \<Longrightarrow>
   last_epoch (loop_cycle rd mk now ok_reset ok_tick st) = fst mk
   \<and> s_rtc_ok (loop_cycle rd mk now ok_reset ok_tick st)"
  by (simp add: loop_cycle_def show_remaining_def tick_countdown_def day_boundary_check_def
      nvs_save_state_def nvs_save_state_immediate_def Let_def)

text \<open>
  Claim C1. On an iteration of the main loop whose RTC read succeeds, let \<open>st1\<close> be the
  state after the day boundary check (the state the decrement starts from; it is the
  state before the iteration when the day has not changed) and \<open>delta\<close> the difference
  between this reading's epoch and the previous one. If the countdown is started and
  seconds remain, the remaining seconds go down by exactly the minimum of \<open>delta\<close>
  clamped to 0..60 and the remaining seconds; otherwise they stay. The started flag is
  not touched. So a negative \<open>delta\<close> changes nothing, a \<open>delta\<close> of 120 takes off at
  most 60, and at 0 remaining the countdown stays at 0 and started stays true. The
  iteration stores its epoch as the previous epoch, so the \<open>delta\<close> of the iteration
  that follows (state \<open>st''\<close>, from the state \<open>stn\<close> after its own day boundary check)
  is the difference between the two readings' epochs.
\<close>

theorem tick_decrement:
  assumes "s_rtc_ok st" and "rd = Some t"
    and "st1 = day_boundary_check (day_key_from_tm (snd mk)) ok_reset st"
    and "delta = sint (fst mk - last_epoch st)"
    and "st' = loop_cycle rd mk now ok_reset ok_tick st"
  shows "sint (s_remaining st') =
           (if s_started st1 \<and> 0 < sint (s_remaining st1)
            then sint (s_remaining st1) - min (max 0 (min 60 delta)) (sint (s_remaining st1))
            else sint (s_remaining st1))
         \<and> s_started st' = s_started st1
         \<and> (delta < 0 \<longrightarrow> s_remaining st' = s_remaining st1)
         \<and> (delta = 120 \<longrightarrow> sint (s_remaining st1) - 60 \<le> sint (s_remaining st')
                             \<and> sint (s_remaining st') \<le> sint (s_remaining st1))
         \<and> (s_started st1 \<and> s_remaining st1 = 0 \<longrightarrow> s_remaining st' = 0 \<and> s_started st')
         \<and> (day_key_from_tm (snd mk) = s_day_key st \<longrightarrow> st1 = st)
         \<and> last_epoch st' = fst mk
         \<and> (rdn = Some tn
              \<and> stn = day_boundary_check (day_key_from_tm (snd mkn)) ok_resetn st'
              \<and> st'' = loop_cycle rdn mkn nown ok_resetn ok_tickn st' \<longrightarrow>
             sint (s_remaining st'') =
               (if s_started stn \<and> 0 < sint (s_remaining stn)
                then sint (s_remaining stn)
                       - min (max 0 (min 60 (sint (fst mkn - fst mk)))) (sint (s_remaining stn))
                else sint (s_remaining stn))
             \<and> last_epoch st'' = fst mkn)"
proof -
  have le: "last_epoch st' = fst mk" and ok': "s_rtc_ok st'"
    using assms(5) loop_cycle_last_epoch [OF assms(1,2), of mk now ok_reset ok_tick]
    by simp_all
  have nx: "rdn = Some tn
              \<and> stn = day_boundary_check (day_key_from_tm (snd mkn)) ok_resetn st'
              \<and> st'' = loop_cycle rdn mkn nown ok_resetn ok_tickn st' \<longrightarrow>
             sint (s_remaining st'') =
               (if s_started stn \<and> 0 < sint (s_remaining stn)
                then sint (s_remaining stn)
                       - min (max 0 (min 60 (sint (fst mkn - fst mk)))) (sint (s_remaining stn))
                else sint (s_remaining stn))
             \<and> last_epoch st'' = fst mkn"
  proof
    assume h: "rdn = Some tn
              \<and> stn = day_boundary_check (day_key_from_tm (snd mkn)) ok_resetn st'
              \<and> st'' = loop_cycle rdn mkn nown ok_resetn ok_tickn st'"
    then have rdn: "rdn = Some tn" by simp
    have ln: "last_epoch stn = fst mk"
      using h le by simp
    have "sint (s_remaining st'') =
               (if s_started stn \<and> 0 < sint (s_remaining stn)
                then sint (s_remaining stn)
                       - min (max 0 (min 60 (sint (fst mkn - last_epoch stn))))
                           (sint (s_remaining stn))
                else sint (s_remaining stn))"
      using h loop_cycle_remaining [OF ok' rdn, of mkn nown ok_resetn ok_tickn]
        tick_remaining [of "fst mkn" nown ok_tickn stn]
      by simp
    moreover have "last_epoch st'' = fst mkn"
      using h loop_cycle_last_epoch [OF ok' rdn, of mkn nown ok_resetn ok_tickn] by simp
    ultimately show "sint (s_remaining st'') =
               (if s_started stn \<and> 0 < sint (s_remaining stn)
                then sint (s_remaining stn)
                       - min (max 0 (min 60 (sint (fst mkn - fst mk)))) (sint (s_remaining stn))
                else sint (s_remaining stn))
             \<and> last_epoch st'' = fst mkn"
      by (simp only: ln)
  qed
  have r: "sint (s_remaining st') =
           (if s_started st1 \<and> 0 < sint (s_remaining st1)
            then sint (s_remaining st1) - min (max 0 (min 60 delta)) (sint (s_remaining st1))
            else sint (s_remaining st1))"
    using assms loop_cycle_remaining [OF assms(1,2), of mk now ok_reset ok_tick]
      tick_remaining [of "fst mk" now ok_tick st1]
    by simp
  have s: "s_started st' = s_started st1"
    using assms loop_cycle_remaining [OF assms(1,2), of mk now ok_reset ok_tick] by simp
  have n: "delta < 0 \<longrightarrow> s_remaining st' = s_remaining st1"
  proof
    assume "delta < 0"
    with r have "sint (s_remaining st') = sint (s_remaining st1)"
      by (simp split: if_splits)
    then show "s_remaining st' = s_remaining st1"
      by (rule signed_word_eqI)
  qed
  have b: "delta = 120 \<longrightarrow> sint (s_remaining st1) - 60 \<le> sint (s_remaining st')
                             \<and> sint (s_remaining st') \<le> sint (s_remaining st1)"
    using r by (auto split: if_splits)
  have z: "s_started st1 \<and> s_remaining st1 = 0 \<longrightarrow> s_remaining st' = 0 \<and> s_started st'"
  proof
    assume a: "s_started st1 \<and> s_remaining st1 = 0"
    with r have "sint (s_remaining st') = sint (0 :: 32 word)" by simp
    then have "s_remaining st' = 0"
      by (rule signed_word_eqI)
    with a s show "s_remaining st' = 0 \<and> s_started st'" by simp
  qed
  have d: "day_key_from_tm (snd mk) = s_day_key st \<longrightarrow> st1 = st"
    using assms(3) by (simp add: day_boundary_check_def)
  from r s n b z d le nx show ?thesis by blast
qed

text \<open>
  Witness for C1 on the counting device with 61 seconds left and the day unchanged: a
  reading 120 seconds after the previous one takes off 60, leaves 1 second with the
  countdown still started and becomes the previous epoch; a reading 5 seconds before
  the previous one leaves the 61 seconds; and of two readings in the same second, one
  second after the previous one, the first takes off one second and the second none.
\<close>

theorem tick_decrement_witness:
  "sint (s_remaining (loop_cycle (Some tm_may1) (1714588199, tm_may1) 1714588199 True True
           (st_running\<lparr>last_epoch := 1714588079\<rparr>))) = 1
   \<and> s_started (loop_cycle (Some tm_may1) (1714588199, tm_may1) 1714588199 True True
        (st_running\<lparr>last_epoch := 1714588079\<rparr>))
   \<and> last_epoch (loop_cycle (Some tm_may1) (1714588199, tm_may1) 1714588199 True True
        (st_running\<lparr>last_epoch := 1714588079\<rparr>)) = 1714588199
   \<and> s_remaining (loop_cycle (Some tm_may1) (1714588193, tm_may1) 1714588193 True True
        st_running) = 61
   \<and> sint (s_remaining (loop_cycle (Some tm_may1) (1714588199, tm_may1) 1714588199 True True
        st_running)) = 60
   \<and> sint (s_remaining (loop_cycle (Some tm_may1) (1714588199, tm_may1) 1714588199 True True
        (loop_cycle (Some tm_may1) (1714588199, tm_may1) 1714588199 True True
           st_running))) = 60"
proof -
  let ?st = "st_running\<lparr>last_epoch := 1714588079\<rparr>"
  let ?s1 = "loop_cycle (Some tm_may1) (1714588199, tm_may1) 1714588199 True True st_running"
  have ok: "s_rtc_ok st_running" "s_rtc_ok ?st"
    by (simp_all add: example_defs)
  have dk: "day_boundary_check (day_key_from_tm tm_may1) True st_running = st_running"
    "day_boundary_check (day_key_from_tm tm_may1) True ?st = ?st"
    by (simp_all add: day_boundary_check_def day_key_from_tm_def example_defs)
  have r: "s_remaining st_running = 61" "s_started st_running"
    "last_epoch st_running = 1714588198"
    by (simp_all add: example_defs)
  have a: "sint (s_remaining (loop_cycle (Some tm_may1) (1714588199, tm_may1) 1714588199
                True True ?st)) = 1
      \<and> s_started (loop_cycle (Some tm_may1) (1714588199, tm_may1) 1714588199 True True ?st)
      \<and> last_epoch (loop_cycle (Some tm_may1) (1714588199, tm_may1) 1714588199 True True ?st)
          = 1714588199"
    using
      tick_decrement [OF ok(2) refl refl refl refl, where t = tm_may1
        and mk = "(1714588199, tm_may1)" and ok_reset = True and now = 1714588199
        and ok_tick = True]
    by (simp add: dk r)
  have b: "s_remaining (loop_cycle (Some tm_may1) (1714588193, tm_may1) 1714588193 True True
        st_running) = 61"
    using
      tick_decrement [OF ok(1) refl refl refl refl, where t = tm_may1
        and mk = "(1714588193, tm_may1)" and ok_reset = True and now = 1714588193
        and ok_tick = True]
    by (simp add: dk r)
  note t = tick_decrement [OF ok(1) refl refl refl refl, where t = tm_may1
        and mk = "(1714588199, tm_may1)" and ok_reset = True and now = 1714588199
        and ok_tick = True and rdn = "Some tm_may1" and tn = tm_may1
        and mkn = "(1714588199, tm_may1)" and ok_resetn = True and nown = 1714588199
        and ok_tickn = True
        and stn = "day_boundary_check (day_key_from_tm (snd (1714588199 :: time_t, tm_may1)))
                        True ?s1"
        and st'' = "loop_cycle (Some tm_may1) (1714588199, tm_may1) 1714588199 True True ?s1"]
  have c: "sint (s_remaining ?s1) = 60" "s_started ?s1"
    using t by (simp_all add: dk r)
  have k: "s_day_key ?s1 = s_day_key st_running"
    by (simp add: loop_cycle_def show_remaining_def tick_countdown_def day_boundary_check_def
        nvs_save_state_def nvs_save_state_immediate_def Let_def day_key_from_tm_def
        example_defs)
  have dk2: "day_boundary_check (day_key_from_tm tm_may1) True ?s1 = ?s1"
    using k by (simp add: day_boundary_check_def day_key_from_tm_def example_defs)
  have d: "sint (s_remaining (loop_cycle (Some tm_may1) (1714588199, tm_may1) 1714588199
                True True ?s1)) = 60"
    using t c by (simp add: dk2)
  from a b c(1) d show ?thesis by simp
qed

section \<open>Failed RTC reads\<close>

text \<open>
  Claim C8. When the time source read fails on an iteration of the main loop (the RTC
  was never initialised, or \<^verbatim>\<open>ds3231_get_time\<close> returns an error), the iteration does
  neither the day boundary check nor the decrement: every variable, the previous epoch,
  the flash contents and the timer are as before, and the only thing done is to show the
  fallback rendering 00:00 with the colon off.
\<close>

theorem rtc_read_failure_freezes_state:
  "\<not> s_rtc_ok st \<or> rd = None \<Longrightarrow>
   loop_cycle rd mk now ok_reset ok_tick st = st\<lparr>trace := ShowHHMM 0 0 False # trace st\<rparr>"
  by (auto simp add: loop_cycle_def)

text \<open>Witness for C8: a failed read while the device counts down with 61 seconds left.\<close>

theorem rtc_read_failure_freezes_state_witness:
  "loop_cycle None (1714588199, tm_may1) 1714588199 True True st_running
     = st_running\<lparr>trace := [ShowHHMM 0 0 False]\<rparr>
   \<and> s_remaining (loop_cycle None (1714588199, tm_may1) 1714588199 True True st_running) = 61"
  using rtc_read_failure_freezes_state [where st = st_running and rd = None
      and mk = "(1714588199, tm_may1)" and now = 1714588199 and ok_reset = True
      and ok_tick = True]
  by (simp add: example_defs)

section \<open>Persistence\<close>

text \<open>
  Claim C9. Saving a state with \<^verbatim>\<open>nvs_save_state_immediate\<close> and loading the flash it
  leaves with \<^verbatim>\<open>nvs_load_state\<close>, into variables \<open>m\<close> holding anything (as after a
  restart), gives back the saved day key, remaining seconds, started flag and
  known-device flag, and the saved MAC whenever a device was known at save time (when
  none was, the MAC bytes in memory are left as they were). Both calls open the
  namespace successfully.
\<close>

theorem save_immediate_load_roundtrip:
  "s_day_key (nvs_load_state True (m\<lparr>nvs := nvs (nvs_save_state_immediate True st)\<rparr>))
     = s_day_key st
   \<and> s_remaining (nvs_load_state True (m\<lparr>nvs := nvs (nvs_save_state_immediate True st)\<rparr>))
     = s_remaining st
   \<and> s_started (nvs_load_state True (m\<lparr>nvs := nvs (nvs_save_state_immediate True st)\<rparr>))
     = s_started st
   \<and> s_have_mac (nvs_load_state True (m\<lparr>nvs := nvs (nvs_save_state_immediate True st)\<rparr>))
     = s_have_mac st
   \<and> s_phone_mac (nvs_load_state True (m\<lparr>nvs := nvs (nvs_save_state_immediate True st)\<rparr>))
     = (if s_have_mac st then s_phone_mac st else s_phone_mac m)"
  by (simp add: nvs_load_state_def nvs_save_state_immediate_def nvs_put_state_def Let_def
      get_blob_bytes)

text \<open>
  Claim C10, as stated, fails. The immediate save resets the throttle timestamp to zero
  only when it gets to its last line, and the throttled save that follows still compares
  the system time with that zero: with a system clock that reads 30 seconds (never set
  from the RTC) the throttled save right after an immediate save writes nothing. And an
  immediate save whose \<^verbatim>\<open>nvs_open\<close> fails returns before the reset.
\<close>

theorem throttled_after_immediate_counterexample:
  "s_last_save_epoch (nvs_save_state_immediate True st_running) = 0
   \<and> trace (nvs_save_state 30 True (nvs_save_state_immediate True st_running))
       = [SaveThrottledCall 30, ImmediateWrite]
   \<and> s_last_save_epoch
        (nvs_save_state_immediate False (st_running\<lparr>s_last_save_epoch := 1000\<rparr>)) = 1000"
  by (simp add: nvs_save_state_immediate_def nvs_save_state_def Let_def example_defs)

text \<open>
  Claim C10, amended. An immediate save that opens the namespace resets the throttle
  timestamp to zero (one that cannot open it leaves the timestamp alone). The throttled
  save that follows such a reset writes exactly when it opens the namespace and the
  system time is at least 60, however little time has passed since the immediate write.
\<close>

theorem throttled_after_immediate:
  "s_last_save_epoch (nvs_save_state_immediate ok0 st)
     = (if ok0 then 0 else s_last_save_epoch st)
   \<and> trace (nvs_save_state now ok (nvs_save_state_immediate True st))
       = (if ok \<and> 60 \<le>s now
          then [ThrottledWrite now, SaveThrottledCall now, ImmediateWrite]
          else [SaveThrottledCall now, ImmediateWrite]) @ trace st"
  by (simp add: nvs_save_state_immediate_def nvs_save_state_def Let_def word_sless_alt
      word_sle_eq)

section \<open>Connections and disconnections\<close>

text \<open>
  Claim C4. A connection from a MAC other than the stored one, while a device is known
  and the day's countdown has started (so relearning is not permitted), changes nothing
  at all: the variables, the flash, the timer and the trace of external calls are the
  same, so no countdown is started, no disconnect is scheduled and nothing is written.
\<close>

theorem unknown_device_rejected:
  "s_have_mac st \<Longrightarrow> s_phone_mac st \<noteq> ev_mac \<Longrightarrow> s_started st \<Longrightarrow>
   wifi_event_handler (AP_STACONNECTED ev_mac ev_aid) ok1 ok2 st = Some st"
  by (simp add: Let_def)

text \<open>Witness for C4: phone B connects while the device counts down for phone A.\<close>

theorem unknown_device_rejected_witness:
  "wifi_event_handler (AP_STACONNECTED phone_b 2) True True st_running = Some st_running"
proof -
  have "s_have_mac st_running" and "s_phone_mac st_running \<noteq> phone_b"
    and "s_started st_running"
    by (simp_all add: example_defs)
  then show ?thesis
    by (rule unknown_device_rejected)
qed

text \<open>
  Claim C5, as stated, fails. The handler of a disconnection never looks at the
  association id of the event: with a deauthentication pending for association id 1, the
  disconnection of association id 2 stops the timer and clears the pending flag and the
  stored id.
\<close>

theorem other_disconnect_cancels_counterexample:
  "s_deauth_pending st_armed \<and> s_deauth_aid st_armed = 1 \<and> timer_armed st_armed = Some 4000000
   \<and> wifi_event_handler (AP_STADISCONNECTED phone_b 2) True True st_armed
       = Some (st_armed\<lparr>s_deauth_pending := False, s_deauth_aid := 0, timer_armed := None,
                          trace := [TimerStop]\<rparr>)"
  by (simp add: esp_timer_stop_def example_defs)

text \<open>
  Claim C5, amended. While a delayed disconnect is armed, every disconnection event,
  whether it carries the armed association id or another one, cancels it: the timer is
  stopped and the pending flag and the stored association id are cleared. Nothing else
  changes.
\<close>

theorem any_disconnect_cancels:
  "s_deauth_timer st \<Longrightarrow>
   wifi_event_handler (AP_STADISCONNECTED ev_mac ev_aid) ok1 ok2 st
     = Some (st\<lparr>s_deauth_pending := False, s_deauth_aid := 0, timer_armed := None,
                 trace := TimerStop # trace st\<rparr>)"
  by (simp add: esp_timer_stop_def)

text \<open>Witness for C5 amended: the disconnection of the armed association id itself.\<close>

theorem any_disconnect_cancels_witness:
  "wifi_event_handler (AP_STADISCONNECTED phone_a 1) True True st_armed
     = Some (st_armed\<lparr>s_deauth_pending := False, s_deauth_aid := 0, timer_armed := None,
                        trace := [TimerStop]\<rparr>)"
proof -
  have "s_deauth_timer st_armed"
    by (simp add: example_defs)
  from any_disconnect_cancels [OF this, of phone_a 1 True True] show ?thesis
    by (simp add: example_defs)
qed

text \<open>
  Claim C3. A connection event arriving when no device is known and the day's countdown
  has not started is accepted: the handler returns (it does not abort), the incoming MAC
  becomes the known device and is written to flash at once, started becomes true with a
  second immediate write, and the one-shot timer is stopped and started again for the
  configured delay, with the event's association id stored for the deauthentication.
  The timer handle exists whenever the handler runs, as start-up creates it before the
  access point. Each immediate write reaches the flash when its \<^verbatim>\<open>nvs_open\<close>
  succeeds.
\<close>

theorem first_connection_accepted:
  assumes "\<not> s_have_mac st" and "\<not> s_started st" and "s_deauth_timer st"
  shows "\<exists>st'. wifi_event_handler (AP_STACONNECTED ev_mac ev_aid) ok1 ok2 st = Some st'
     \<and> s_have_mac st' \<and> s_phone_mac st' = ev_mac \<and> s_started st'
     \<and> s_remaining st' = s_remaining st \<and> s_day_key st' = s_day_key st
     \<and> s_deauth_pending st' \<and> s_deauth_aid st' = ev_aid \<and> s_deauth_mac st' = ev_mac
     \<and> timer_armed st' = Some (DEAUTH_DELAY_MS * 1000)
     \<and> trace st' = [TimerStartOnce (DEAUTH_DELAY_MS * 1000), TimerStop]
          @ (if ok2 then [ImmediateWrite] else []) @ (if ok1 then [ImmediateWrite] else [])
          @ trace st
     \<and> (ok1 \<longrightarrow> nvs_hmac (nvs st') = Some 1 \<and> nvs_mac (nvs st') = Some (mac_bytes ev_mac))
     \<and> (ok2 \<longrightarrow> nvs st' = nvs_put_state st' (nvs st) \<and> nvs_start (nvs st') = Some 1)"
  using assms
  by (simp add: Let_def nvs_save_state_immediate_def nvs_put_state_def esp_timer_stop_def
      esp_timer_start_once_def)

text \<open>
  Witness for C3: phone AA:BB:CC:DD:EE:FF connects with association id 1 to the waiting
  device, which knows no phone yet.
\<close>

theorem first_connection_accepted_witness:
  "\<exists>st'. wifi_event_handler (AP_STACONNECTED phone_a 1) True True st_waiting = Some st'
     \<and> s_have_mac st' \<and> s_phone_mac st' = phone_a \<and> s_started st'
     \<and> s_deauth_pending st' \<and> s_deauth_aid st' = 1
     \<and> timer_armed st' = Some 4000000
     \<and> trace st' = [TimerStartOnce 4000000, TimerStop, ImmediateWrite, ImmediateWrite]
     \<and> nvs_start (nvs st') = Some 1
     \<and> nvs_mac (nvs st') = Some [0xAA, 0xBB, 0xCC, 0xDD, 0xEE, 0xFF]"
proof -
  have "\<not> s_have_mac st_waiting" and "\<not> s_started st_waiting" and "s_deauth_timer st_waiting"
    by (simp_all add: example_defs)
  from first_connection_accepted [OF this, of phone_a 1 True True]
  obtain st' where
    h: "wifi_event_handler (AP_STACONNECTED phone_a 1) True True st_waiting = Some st'"
      "s_have_mac st'" "s_phone_mac st' = phone_a" "s_started st'"
      "s_deauth_pending st'" "s_deauth_aid st' = 1"
      "timer_armed st' = Some (DEAUTH_DELAY_MS * 1000)"
      "trace st' = [TimerStartOnce (DEAUTH_DELAY_MS * 1000), TimerStop, ImmediateWrite,
                    ImmediateWrite] @ trace st_waiting"
      "nvs_mac (nvs st') = Some (mac_bytes phone_a)"
      "nvs_start (nvs st') = Some 1"
    by auto
  have "trace st_waiting = []"
    by (simp add: example_defs)
  with h show ?thesis
    by (simp add: DEAUTH_DELAY_MS_def phone_a_def)
qed

section \<open>Day rollover\<close>



section \<open>The delayed disconnect\<close>

lemma loop_cycle_counts:
  "deauths (loop_cycle rd mk now ok_reset ok_tick st) = deauths st"
  "armings (loop_cycle rd mk now ok_reset ok_tick st) = armings st"
  "pending_fires (loop_cycle rd mk now ok_reset ok_tick st) = pending_fires st"
  by (simp_all add: count_defs loop_cycle_def day_boundary_check_def tick_countdown_def
      show_remaining_def nvs_save_state_def nvs_save_state_immediate_def Let_def)

lemma timer_fire_counts:
  "deauths (timer_fire r st) + pending_fires (timer_fire r st) \<le> deauths st + pending_fires st"
  "armings (timer_fire r st) = armings st"
  by (simp_all add: count_defs timer_fire_def deauth_timer_cb_def)

lemma wifi_event_handler_total:
  "\<exists>st'. wifi_event_handler ev ok1 ok2 st = Some st'"
  by (cases ev) (simp_all add: Let_def esp_timer_start_once_def esp_timer_stop_def)

lemma wifi_event_handler_counts:
  assumes "wifi_event_handler ev ok1 ok2 st = Some st'"
  shows "deauths st' + pending_fires st' + armings st
           \<le> armings st' + deauths st + pending_fires st"
proof (cases ev)
  case (AP_STACONNECTED m a)
  with assms show ?thesis
    by (auto simp add: count_defs Let_def nvs_save_state_immediate_def esp_timer_start_once_def
        esp_timer_stop_def split: if_splits)
next
  case (AP_STADISCONNECTED m a)
  with assms show ?thesis
    by (auto simp add: count_defs esp_timer_stop_def split: if_splits)
next
  case WIFI_OTHER
  with assms show ?thesis by simp
qed

lemma step_total: "\<exists>st'. step e st = Some st'"
  by (cases e) (simp_all add: wifi_event_handler_total)

lemma step_counts:
  assumes "step e st = Some st'"
  shows "deauths st' + pending_fires st' + armings st
           \<le> armings st' + deauths st + pending_fires st"
proof (cases e)
  case (MainLoop rd mk now ok_reset ok_tick)
  with assms show ?thesis by (auto simp add: loop_cycle_counts)
next
  case (WifiEvent ev ok1 ok2)
  with assms show ?thesis by (auto intro: wifi_event_handler_counts)
next
  case (TimerExpiry r)
  with assms timer_fire_counts [of r st] show ?thesis by auto
qed

lemma run_total: "\<exists>st'. run es st = Some st'"
proof (induction es arbitrary: st)
  case Nil
  show ?case by simp
next
  case (Cons e es)
  obtain st1 where "step e st = Some st1"
    using step_total by blast
  with Cons.IH [of st1] show ?case by simp
qed

lemma run_counts:
  "run es st = Some st' \<Longrightarrow>
   deauths st' + pending_fires st' + armings st \<le> armings st' + deauths st + pending_fires st"
proof (induction es arbitrary: st)
  case Nil
  then show ?case by simp
next
  case (Cons e es)
  then obtain st1 where s: "step e st = Some st1" and r: "run es st1 = Some st'"
    by (auto split: option.splits)
  from step_counts [OF s] Cons.IH [OF r] show ?case by linarith
qed

text \<open>The timer handle, once created, stays: no step of a run clears it.\<close>

lemma step_keeps_timer: "step e st = Some st' \<Longrightarrow> s_deauth_timer st \<Longrightarrow> s_deauth_timer st'"
proof (cases e)
  case (MainLoop rd mk now ok_reset ok_tick)
  assume "step e st = Some st'" and "s_deauth_timer st"
  with MainLoop show ?thesis
    by (auto simp add: loop_cycle_def day_boundary_check_def tick_countdown_def
        show_remaining_def nvs_save_state_def nvs_save_state_immediate_def Let_def)
next
  case (WifiEvent ev ok1 ok2)
  assume "step e st = Some st'" and "s_deauth_timer st"
  with WifiEvent show ?thesis
    by (cases ev)
      (auto simp add: Let_def nvs_save_state_immediate_def esp_timer_start_once_def
        esp_timer_stop_def split: if_splits)
next
  case (TimerExpiry r)
  assume "step e st = Some st'" and "s_deauth_timer st"
  with TimerExpiry show ?thesis
    by (auto simp add: timer_fire_def deauth_timer_cb_def)
qed

lemma run_keeps_timer: "run es st = Some st' \<Longrightarrow> s_deauth_timer st \<Longrightarrow> s_deauth_timer st'"
proof (induction es arbitrary: st)
  case Nil
  then show ?case by simp
next
  case (Cons e es)
  then obtain st1 where s: "step e st = Some st1" and r: "run es st1 = Some st'"
    by (auto split: option.splits)
  from step_keeps_timer [OF s Cons.prems(2)] Cons.IH [OF r] show ?case by blast
qed

lemma nvs_load_state_frame:
  "s_deauth_timer (nvs_load_state ok st) = s_deauth_timer st"
  "timer_armed (nvs_load_state ok st) = timer_armed st"
  "trace (nvs_load_state ok st) = trace st"
  by (simp_all add: nvs_load_state_def Let_def split: option.splits)

lemma boot_day_check_frame:
  "timer_armed (fst (boot_day_check rd local_tm ok st)) = timer_armed st"
  "filter is_deauth (trace (fst (boot_day_check rd local_tm ok st))) = filter is_deauth (trace st)"
  "filter is_arming (trace (fst (boot_day_check rd local_tm ok st))) = filter is_arming (trace st)"
  by (simp_all add: boot_day_check_def nvs_save_state_immediate_def Let_def split: option.splits)

text \<open>
  Start-up leaves the timer created and not running, with no deauthentication sent and
  no arming made.
\<close>

lemma app_boot_ready:
  assumes "app_boot checks_ok rtc_init_ok load_ok rd local_tm ok_reset mk h = Some st"
  shows "s_deauth_timer st \<and> timer_armed st = None \<and> deauths st = 0 \<and> armings st = 0"
proof -
  let ?st1 = "nvs_load_state load_ok ((init_state h)\<lparr>s_rtc_ok := rtc_init_ok\<rparr>)"
  let ?b = "boot_day_check rd local_tm ok_reset ?st1"
  from assms have st: "st = (fst ?b)\<lparr>s_deauth_timer := True, last_epoch := mk (snd ?b)\<rparr>"
    by (simp add: app_boot_def Let_def split_beta split: if_splits)
  have "timer_armed ?st1 = None" "trace ?st1 = []"
    by (simp_all add: nvs_load_state_frame init_state_def)
  then show ?thesis
    unfolding st by (simp add: count_defs boot_day_check_frame)
qed

text \<open>
  Claim C6. When the timer expires while a deauthentication is pending for a non-zero
  association id, \<^verbatim>\<open>esp_wifi_deauth_sta\<close> is called once with the stored id, and the
  pending flag and the stored id are cleared whatever the call returns; nothing is
  retried, as a further expiry or callback finds nothing pending. An accepted first
  connection of the day stops the timer before it starts it again (so the start never
  fails and the handler never aborts). Hence in every run the deauthentications sent
  plus the fire still pending never exceed the armings made plus the fire that was
  pending at the start: each arming produces at most one fire. Every run goes through
  without an abort.
\<close>

theorem deauth_fires_once:
  "(s_deauth_pending st \<and> s_deauth_aid st \<noteq> 0 \<and> timer_armed st \<noteq> None \<longrightarrow>
      timer_fire r st = st\<lparr>timer_armed := None,
                           trace := DeauthSta (s_deauth_aid st) r # trace st,
                           s_deauth_pending := False, s_deauth_aid := 0\<rparr>
      \<and> timer_fire r2 (timer_fire r st) = timer_fire r st
      \<and> deauth_timer_cb r2 (timer_fire r st) = timer_fire r st)
   \<and> (s_deauth_timer st \<and> \<not> s_started st \<longrightarrow>
        (\<exists>st'. wifi_event_handler (AP_STACONNECTED ev_mac ev_aid) ok1 ok2 st = Some st'
           \<and> take 2 (trace st') = [TimerStartOnce (DEAUTH_DELAY_MS * 1000), TimerStop]
           \<and> timer_armed st' = Some (DEAUTH_DELAY_MS * 1000)
           \<and> s_deauth_pending st' \<and> s_deauth_aid st' = ev_aid))
   \<and> (\<exists>st'. run es st = Some st')
   \<and> (run es st = Some st' \<longrightarrow>
        deauths st' + pending_fires st' + armings st
          \<le> armings st' + deauths st + pending_fires st)"
proof -
  have a: "s_deauth_pending st \<and> s_deauth_aid st \<noteq> 0 \<and> timer_armed st \<noteq> None \<longrightarrow>
      timer_fire r st = st\<lparr>timer_armed := None,
                           trace := DeauthSta (s_deauth_aid st) r # trace st,
                           s_deauth_pending := False, s_deauth_aid := 0\<rparr>
      \<and> timer_fire r2 (timer_fire r st) = timer_fire r st
      \<and> deauth_timer_cb r2 (timer_fire r st) = timer_fire r st"
    by (simp add: timer_fire_def deauth_timer_cb_def)
  have b: "s_deauth_timer st \<and> \<not> s_started st \<longrightarrow>
        (\<exists>st'. wifi_event_handler (AP_STACONNECTED ev_mac ev_aid) ok1 ok2 st = Some st'
           \<and> take 2 (trace st') = [TimerStartOnce (DEAUTH_DELAY_MS * 1000), TimerStop]
           \<and> timer_armed st' = Some (DEAUTH_DELAY_MS * 1000)
           \<and> s_deauth_pending st' \<and> s_deauth_aid st' = ev_aid)"
    by (simp add: Let_def nvs_save_state_immediate_def esp_timer_start_once_def
        esp_timer_stop_def)
  have c: "\<exists>st'. run es st = Some st'"
    by (rule run_total)
  have d: "run es st = Some st' \<longrightarrow>
        deauths st' + pending_fires st' + armings st
          \<le> armings st' + deauths st + pending_fires st"
    using run_counts by blast
  from a b c d show ?thesis by blast
qed

text \<open>
  Witness for C6: with a deauthentication pending for association id 1 the expiry sends
  it once, although the call fails; and in the run where phone A checks in and the
  timer then expires twice, one arming is made and one deauthentication is sent.
\<close>

theorem deauth_fires_once_witness:
  "timer_fire False st_armed
     = st_armed\<lparr>timer_armed := None, trace := [DeauthSta 1 False],
                s_deauth_pending := False, s_deauth_aid := 0\<rparr>
   \<and> (\<exists>st'. run checkin_run st_waiting = Some st'
         \<and> deauths st' = 1 \<and> armings st' = 1 \<and> pending_fires st' = 0
         \<and> trace st' = [DeauthSta 1 False, TimerStartOnce 4000000, TimerStop,
                         ImmediateWrite, ImmediateWrite])"
proof -
  have h: "s_deauth_pending st_armed \<and> s_deauth_aid st_armed \<noteq> 0 \<and> timer_armed st_armed \<noteq> None"
    by (simp add: example_defs)
  have t: "trace st_armed = []" "s_deauth_aid st_armed = 1"
    by (simp_all add: example_defs)
  have f: "timer_fire False st_armed
     = st_armed\<lparr>timer_armed := None, trace := [DeauthSta 1 False],
                s_deauth_pending := False, s_deauth_aid := 0\<rparr>"
    using deauth_fires_once [of st_armed False] h by (simp add: t)
  have r: "run checkin_run st_waiting
      = Some (st_waiting\<lparr>s_started := True, s_phone_mac := phone_a, s_have_mac := True,
            s_deauth_mac := phone_a,
            nvs := \<lparr>nvs_day = Some 20240501, nvs_rem = Some 33300, nvs_start = Some 1,
                    nvs_hmac = Some 1,
                    nvs_mac = Some [0xAA, 0xBB, 0xCC, 0xDD, 0xEE, 0xFF]\<rparr>,
            trace := [DeauthSta 1 False, TimerStartOnce 4000000, TimerStop,
                      ImmediateWrite, ImmediateWrite]\<rparr>)"
    by (simp add: example_defs Let_def nvs_save_state_immediate_def nvs_put_state_def
        esp_timer_stop_def esp_timer_start_once_def timer_fire_def deauth_timer_cb_def)
  have w: "timer_armed st_waiting = None"
    by (simp add: example_defs)
  show ?thesis
    using f r by (simp add: count_defs w)
qed

section \<open>The throttled save\<close>

lemma nvs_save_state_trace:
  "trace (nvs_save_state now ok st) =
     (if 60 \<le> sint (now - s_last_save_epoch st) \<and> ok
      then [ThrottledWrite now, SaveThrottledCall now] else [SaveThrottledCall now]) @ trace st"
  by (simp add: nvs_save_state_def Let_def word_sless_alt)

lemma tick_trace_started:
  assumes "s_started st" and "0 <s s_remaining st"
    and "dw = (if s_remaining st <s ucast (clamp_delta (epoch - last_epoch st))
               then s_remaining st else ucast (clamp_delta (epoch - last_epoch st)))"
  shows "trace (tick_countdown epoch now ok st) =
     (if 0 <s dw \<and> sint (s_remaining st - dw) smod 60 = 0
      then (if 60 \<le> sint (now - s_last_save_epoch st) \<and> ok
            then [ThrottledWrite now, SaveThrottledCall now] else [SaveThrottledCall now])
      else []) @ trace st"
  using assms by (simp add: tick_countdown_def Let_def nvs_save_state_trace)

lemma tick_trace_idle:
  "\<not> (s_started st \<and> 0 <s s_remaining st) \<Longrightarrow>
   trace (tick_countdown epoch now ok st) = trace st"
  by (auto simp add: tick_countdown_def Let_def)

lemma sint_min_word:
  fixes r d :: "32 word"
  shows "sint (if r <s d then r else d) = min (sint d) (sint r)"
  by (simp add: word_sless_alt min_def)

text \<open>
  Claim C7, as stated, fails in its last part. The throttle compares the system time with
  a timestamp that every immediate write resets to zero, so two throttled writes can
  come closer than 60 seconds when an immediate write lies between them. In the run
  below the device writes through the throttled path at 23:59:59; the day then changes
  and the phone checks in again (two immediate writes); the next RTC reading is 62
  seconds ahead, the countdown goes from 33300 to 33240, and the throttled path writes
  again, two seconds of system time after its previous write.
\<close>

theorem throttled_writes_two_seconds_apart_counterexample:
  "map_option trace (run rollover_run st_running)
     = Some [ShowHHMM 9 14 True, ThrottledWrite 1714588201, SaveThrottledCall 1714588201,
             TimerStartOnce 4000000, TimerStop, ImmediateWrite,
             ShowHHMM 9 15 True, ImmediateWrite,
             ShowHHMM 0 1 False, ThrottledWrite 1714588199, SaveThrottledCall 1714588199]
   \<and> sint (1714588201 - 1714588199 :: time_t) = 2"
  by code_simp

text \<open>
  Claim C7, amended. On a countdown tick the throttled save is attempted exactly when
  the decrement \<open>dec\<close> was positive and the remaining seconds are a multiple of 60 after
  it, and it writes exactly when, in addition, \<^verbatim>\<open>nvs_open\<close> succeeds and the system
  time is at least 60 seconds past the throttle timestamp. A throttled save that gets
  past the throttle sets the timestamp to its system time, so a throttled write at time
  \<open>now1\<close> and a later throttled write that still finds the timestamp \<open>now1\<close> are at
  least 60 seconds apart. (The timestamp is what an immediate write resets.)
\<close>

theorem throttled_save_policy:
  assumes "dec = (if s_started st \<and> 0 < sint (s_remaining st)
                  then min (max 0 (min 60 (sint (epoch - last_epoch st))))
                         (sint (s_remaining st))
                  else 0)"
    and "attempted = (0 < dec \<and> (sint (s_remaining st) - dec) smod 60 = 0)"
    and "passes = (60 \<le> sint (now - s_last_save_epoch st))"
  shows "trace (tick_countdown epoch now ok st) =
           (if attempted
            then (if passes \<and> ok then [ThrottledWrite now, SaveThrottledCall now]
                  else [SaveThrottledCall now])
            else []) @ trace st
         \<and> s_last_save_epoch (nvs_save_state now ok st)
             = (if passes then now else s_last_save_epoch st)
         \<and> (s_last_save_epoch st = now1
              \<and> trace (nvs_save_state now ok st)
                  = ThrottledWrite now # SaveThrottledCall now # trace st
              \<longrightarrow> 60 \<le> sint (now - now1))"
proof -
  let ?c = "clamp_delta (epoch - last_epoch st)"
  let ?dw = "if s_remaining st <s ucast ?c then s_remaining st else ucast ?c"
  have c: "sint (ucast ?c :: 32 word) = max 0 (min 60 (sint (epoch - last_epoch st)))"
    using sint_ucast_small [of ?c] by (simp add: clamp_delta_sint)
  have t: "trace (tick_countdown epoch now ok st) =
           (if attempted
            then (if passes \<and> ok then [ThrottledWrite now, SaveThrottledCall now]
                  else [SaveThrottledCall now])
            else []) @ trace st"
  proof (cases "s_started st \<and> 0 < sint (s_remaining st)")
    case True
    then have w: "s_started st" "0 <s s_remaining st"
      by (simp_all add: word_sless_alt)
    from True have d: "dec = sint ?dw"
      using assms(1) by (simp only: sint_min_word c) simp
    have "0 \<le> sint (ucast ?c :: 32 word)"
      by (simp add: c)
    with True have "sint (s_remaining st - ?dw)
        = sint (s_remaining st) - min (sint (ucast ?c :: 32 word)) (sint (s_remaining st))"
      using sint_dec [of "s_remaining st" "ucast ?c"] by simp
    then have r: "sint (s_remaining st - ?dw) = sint (s_remaining st) - dec"
      using d by (simp only: sint_min_word)
    have p: "(0 <s ?dw) = (0 < dec)"
      using d by (simp add: word_sless_alt)
    show ?thesis
      using tick_trace_started [OF w refl, of epoch now ok]
      by (simp only: r p assms(2,3))
  next
    case False
    then have w: "\<not> (s_started st \<and> 0 <s s_remaining st)"
      by (simp add: word_sless_alt)
    from False have "dec = 0"
      using assms(1) by auto
    then have "\<not> attempted"
      using assms(2) by simp
    with w show ?thesis
      by (simp add: tick_trace_idle)
  qed
  have s: "s_last_save_epoch (nvs_save_state now ok st)
             = (if passes then now else s_last_save_epoch st)"
    using assms(3) by (simp add: nvs_save_state_def Let_def word_sless_alt)
  have v: "s_last_save_epoch st = now1
              \<and> trace (nvs_save_state now ok st)
                  = ThrottledWrite now # SaveThrottledCall now # trace st
              \<longrightarrow> 60 \<le> sint (now - now1)"
    by (auto simp add: nvs_save_state_trace split: if_splits)
  from t s v show ?thesis by blast
qed

text \<open>
  Witness for C7 amended: with 61 seconds left and the throttle timestamp at zero, the
  tick at 23:59:59, one second after the previous reading, reaches 60 seconds and
  writes.
\<close>

theorem throttled_save_policy_witness:
  "trace (tick_countdown 1714588199 1714588199 True st_running)
     = [ThrottledWrite 1714588199, SaveThrottledCall 1714588199]
   \<and> s_last_save_epoch (nvs_save_state 1714588199 True st_running) = 1714588199"
proof -
  have v: "s_started st_running" "s_remaining st_running = 61"
    "last_epoch st_running = 1714588198" "s_last_save_epoch st_running = 0"
    "trace st_running = []"
    by (simp_all add: example_defs)
  show ?thesis
    using throttled_save_policy [OF refl refl refl, where st = st_running
        and epoch = 1714588199 and now = 1714588199 and ok = True]
    by (simp add: v)
qed

end
